theory Spec2Isabelle
  imports Complex_Main "HOL-Library.Product_Lexorder"
begin

section \<open>The retrieval engine of main.py (class AdvancedRAGEngine)\<close>

text \<open>
  A shallow embedding of \<^verbatim>\<open>main.py\<close>. Python strings are lists of Unicode code points,
  Python integers are \<open>int\<close>, an exception is the \<open>Inl\<close> branch of a sum, and every
  method of the engine takes the engine and returns the engine it leaves behind together
  with its outcome, so that the fields a raising call has already assigned stay visible.

  The engine calls code that is not part of the repository. scikit-learn's
  \<^verbatim>\<open>TfidfVectorizer\<close>, the file system with pdfplumber, and the Groq client are
  parameters of the model: records of functions that may raise. faiss's \<^verbatim>\<open>IndexFlatL2\<close>
  is modelled from section 4.4 of the specification. The \<^verbatim>\<open>float32\<close> numbers of numpy
  and faiss are real numbers here: rounding is not modelled.
\<close>

subsection \<open>Python strings\<close>

type_synonym pystr = "nat list"

text \<open>An ASCII literal as a Python string.\<close>

definition py :: "string \<Rightarrow> pystr" where
  "py s = map of_char s"

text \<open>
  The characters \<^verbatim>\<open>str.split()\<close> and \<^verbatim>\<open>str.strip()\<close> treat as whitespace
  (CPython's \<^verbatim>\<open>_PyUnicode_IsWhitespace\<close>).
\<close>

definition is_space :: "nat \<Rightarrow> bool" where
  "is_space c \<longleftrightarrow>
     (9 \<le> c \<and> c \<le> 13) \<or> (28 \<le> c \<and> c \<le> 32) \<or> c = 133 \<or> c = 160 \<or> c = 5760 \<or>
     (8192 \<le> c \<and> c \<le> 8202) \<or> c = 8232 \<or> c = 8233 \<or> c = 8239 \<or> c = 8287 \<or>
     c = 12288"

text \<open>
  \<^verbatim>\<open>text.split()\<close>: the maximal runs of characters that are not whitespace, in order.
  \<open>cur\<close> is the word being read.
\<close>

primrec split_aux :: "pystr \<Rightarrow> pystr \<Rightarrow> pystr list" where
  "split_aux cur [] = (if cur = [] then [] else [cur])"
| "split_aux cur (c # cs) =
     (if is_space c then (if cur = [] then split_aux [] cs else cur # split_aux [] cs)
      else split_aux (cur @ [c]) cs)"

definition py_split :: "pystr \<Rightarrow> pystr list" where
  "py_split s = split_aux [] s"

definition py_strip :: "pystr \<Rightarrow> pystr" where
  "py_strip s = rev (dropWhile is_space (rev (dropWhile is_space s)))"

fun py_join :: "pystr \<Rightarrow> pystr list \<Rightarrow> pystr" where
  "py_join sep [] = []"
| "py_join sep [w] = w"
| "py_join sep (w # ws) = w @ sep @ py_join sep ws"

text \<open>
  \<^verbatim>\<open>suffix.lower()\<close>. Only the ASCII capitals are mapped: no other character lowercases
  to a character of \<^verbatim>\<open>.txt\<close> or \<^verbatim>\<open>.pdf\<close>, the two strings the result is compared with.
\<close>

definition py_lower :: "pystr \<Rightarrow> pystr" where
  "py_lower s = map (\<lambda>c. if 65 \<le> c \<and> c \<le> 90 then c + 32 else c) s"

text \<open>\<^verbatim>\<open>xs[start:stop]\<close>: a negative bound counts from the end, and both are clamped.\<close>

definition py_slice :: "'a list \<Rightarrow> int \<Rightarrow> int \<Rightarrow> 'a list" where
  "py_slice xs start stop =
     (let n = int (length xs);
          lo = (if start < 0 then max (start + n) 0 else min start n);
          hi = (if stop < 0 then max (stop + n) 0 else min stop n)
      in take (nat (hi - lo)) (drop (nat lo) xs))"

text \<open>
  \<^verbatim>\<open>range(start, stop, step)\<close> for a positive step, the only kind the engine asks for
  (its step is \<^verbatim>\<open>max(1, ...)\<close>).
\<close>

function py_range :: "int \<Rightarrow> int \<Rightarrow> int \<Rightarrow> int list" where
  "py_range start stop step =
     (if 0 < step \<and> start < stop then start # py_range (start + step) stop step else [])"
  by pat_completeness auto
termination
  by (relation "measure (\<lambda>(start, stop, step). nat (stop - start))") auto

subsection \<open>Errors\<close>

text \<open>
  The exceptions of the engine, by class and message; \<open>LibraryError\<close> is whatever a
  library called by the engine raises.
\<close>

datatype error =
    FileNotFoundError pystr
  | ValueError string
  | RuntimeError string
  | LibraryError string

text \<open>The error kinds of the specification are these exceptions.\<close>

definition MissingCredential :: error where
  "MissingCredential = ValueError ''Missing GROQ_API_KEY. Set it in environment or pass explicitly.''"

definition UnsupportedFormat :: error where
  "UnsupportedFormat = ValueError ''Unsupported file type. Use .txt or .pdf''"

definition EmptyDocument :: error where
  "EmptyDocument = ValueError ''No text could be extracted from the file.''"

definition EmptyInputText :: error where
  "EmptyInputText = ValueError ''Input text is empty.''"

definition EmptyEmbeddings :: error where
  "EmptyEmbeddings = ValueError ''Failed to create embeddings from chunks.''"

definition NoKnowledgeBase :: error where
  "NoKnowledgeBase = RuntimeError ''No knowledge base loaded. Ingest a file first.''"

subsection \<open>Arrays, the vectorizer and the index\<close>

text \<open>A two-dimensional numpy array: \<open>shape = (length nd_rows, nd_cols)\<close>.\<close>

record ndarray =
  nd_cols :: nat
  nd_rows :: "real list list"

definition shape0 :: "ndarray \<Rightarrow> nat" where
  "shape0 X = length (nd_rows X)"

definition shape1 :: "ndarray \<Rightarrow> nat" where
  "shape1 X = nd_cols X"

definition nd_size :: "ndarray \<Rightarrow> nat" where
  "nd_size X = shape0 X * shape1 X"

text \<open>
  The \<^verbatim>\<open>TfidfVectorizer\<close> object, with its state \<open>'v\<close>: \<open>fit_transform\<close> returns the
  state it leaves and either raises or returns the matrix \<^verbatim>\<open>X.toarray()\<close>;
  \<open>transform\<close> returns the row of one query, or raises.
\<close>

record 'v tfidf =
  new_vectorizer :: 'v
  fit_transform :: "'v \<Rightarrow> pystr list \<Rightarrow> 'v \<times> (error + ndarray)"
  transform :: "'v \<Rightarrow> pystr \<Rightarrow> error + real list"

text \<open>
  What scikit-learn promises of a fit that returns: one row per document, and a fitted
  vectorizer that transforms every query.
\<close>

definition sklearn_contract :: "'v tfidf \<Rightarrow> bool" where
  "sklearn_contract T \<longleftrightarrow>
     (\<forall>v docs v' X. fit_transform T v docs = (v', Inr X) \<longrightarrow>
        length (nd_rows X) = length docs \<and> (\<forall>q. \<exists>qv. transform T v' q = Inr qv))"

text \<open>
  Modelled from the spec: \<^verbatim>\<open>faiss.IndexFlatL2\<close> is a library, its code is not in the
  repository. Section 4.4: build constructs an exact-search structure over the embedding
  matrix; search returns the k nearest (index, distance) pairs ordered by ascending
  squared Euclidean distance, ties broken by original chunk order (lowest index first);
  k may exceed the number of stored vectors. Section 4.5: the search pads with sentinel
  indices outside the chunk range when fewer than k vectors are available.
\<close>

record flat_index =
  ix_dim :: nat
  ix_rows :: "real list list"

definition IndexFlatL2 :: "nat \<Rightarrow> flat_index" where
  "IndexFlatL2 dm = \<lparr>ix_dim = dm, ix_rows = []\<rparr>"

definition index_add :: "flat_index \<Rightarrow> ndarray \<Rightarrow> flat_index" where
  "index_add ix X = ix\<lparr>ix_rows := ix_rows ix @ nd_rows X\<rparr>"

definition ntotal :: "flat_index \<Rightarrow> nat" where
  "ntotal ix = length (ix_rows ix)"

definition l2_sqr :: "real list \<Rightarrow> real list \<Rightarrow> real" where
  "l2_sqr q r = sum_list (map (\<lambda>(a, b). (a - b)\<^sup>2) (zip q r))"

text \<open>The distance written beside a sentinel index (the largest \<^verbatim>\<open>float32\<close>).\<close>

definition pad_distance :: real where
  "pad_distance = 340282346638528859811704183484516925440"

definition index_search :: "flat_index \<Rightarrow> real list \<Rightarrow> int \<Rightarrow> real list \<times> int list" where
  "index_search ix q k =
     (let dists = map (l2_sqr q) (ix_rows ix);
          hits = take (nat k) (sort (zip dists [0..<length dists]));
          pad = nat k - length hits
      in (map fst hits @ replicate pad pad_distance,
          map (\<lambda>h. int (snd h)) hits @ replicate pad (- 1)))"

subsection \<open>The chunker\<close>

text \<open>
  The loop of \<^verbatim>\<open>_chunk_text\<close> over \<^verbatim>\<open>range(0, len(words), step)\<close>, with its
  \<^verbatim>\<open>break\<close>.
\<close>

fun chunk_loop :: "int \<Rightarrow> pystr list \<Rightarrow> int list \<Rightarrow> pystr list \<Rightarrow> pystr list" where
  "chunk_loop size_words words [] chunks = chunks"
| "chunk_loop size_words words (start # rest) chunks =
     (let endw = start + size_words;
          chunk = py_strip (py_join (py '' '') (py_slice words start endw));
          chunks' = (if chunk \<noteq> [] then chunks @ [chunk] else chunks)
      in if endw \<ge> int (length words) then chunks'
         else chunk_loop size_words words rest chunks')"

definition chunk_text :: "int \<Rightarrow> int \<Rightarrow> pystr \<Rightarrow> pystr list" where
  "chunk_text size_words overlap_words txt =
     (let words = py_split txt in
      if words = [] then []
      else let step = max 1 (size_words - overlap_words)
           in chunk_loop size_words words (py_range 0 (int (length words)) step) [])"

subsection \<open>The engine\<close>

record retrieval_result =
  chunk :: pystr
  score :: real

record 'v engine =
  model_name :: pystr
  chunk_size_words :: int
  chunk_overlap_words :: int
  groq_api_key :: pystr
  vectorizer :: 'v
  index :: "flat_index option"
  chunks :: "pystr list"
  embeddings :: "ndarray option"
  source_name :: "pystr option"

text \<open>
  \<^verbatim>\<open>__init__\<close>: \<open>key_arg\<close> is the argument, \<open>key_env\<close> what \<^verbatim>\<open>os.getenv\<close> returns; an
  empty string is false for \<^verbatim>\<open>or\<close> and \<^verbatim>\<open>not\<close>.
\<close>

definition new_engine ::
  "'v tfidf \<Rightarrow> pystr option \<Rightarrow> pystr option \<Rightarrow> pystr \<Rightarrow> int \<Rightarrow> int \<Rightarrow> error + 'v engine" where
  "new_engine T key_arg key_env model size_words overlap_words =
     (let key = (case key_arg of None \<Rightarrow> key_env
                 | Some k \<Rightarrow> if k \<noteq> [] then Some k else key_env)
      in case key of
           None \<Rightarrow> Inl MissingCredential
         | Some k \<Rightarrow>
             if k = [] then Inl MissingCredential
             else Inr \<lparr>model_name = model, chunk_size_words = size_words,
                       chunk_overlap_words = overlap_words, groq_api_key = k,
                       vectorizer = new_vectorizer T, index = None, chunks = [],
                       embeddings = None, source_name = None\<rparr>)"

text \<open>\<^verbatim>\<open>_build_index\<close>.\<close>

definition build_index ::
  "'v tfidf \<Rightarrow> 'v engine \<Rightarrow> pystr list \<Rightarrow> 'v engine \<times> (error + unit)" where
  "build_index T e cs =
     (case fit_transform T (vectorizer e) cs of
        (v', r) \<Rightarrow>
          (let e1 = e\<lparr>vectorizer := v'\<rparr> in
           case r of
             Inl err \<Rightarrow> (e1, Inl err)
           | Inr X \<Rightarrow>
               if nd_size X = 0 then (e1, Inl EmptyEmbeddings)
               else let dm = shape1 X;
                        e2 = e1\<lparr>index := Some (index_add (IndexFlatL2 dm) X)\<rparr>;
                        e3 = e2\<lparr>embeddings := Some X\<rparr>
                    in (e3, Inr ())))"

text \<open>
  The three statements both ingestion methods end with: assign the source name, assign
  the chunks, build the index, return the number of chunks.
\<close>

definition load_text :: "'v tfidf \<Rightarrow> 'v engine \<Rightarrow> pystr \<Rightarrow> pystr \<Rightarrow> 'v engine \<times> (error + nat)" where
  "load_text T e txt name =
     (let e1 = e\<lparr>source_name := Some name\<rparr>;
          e2 = e1\<lparr>chunks := chunk_text (chunk_size_words e1) (chunk_overlap_words e1) txt\<rparr>
      in case build_index T e2 (chunks e2) of
           (e3, Inl err) \<Rightarrow> (e3, Inl err)
         | (e3, Inr u) \<Rightarrow> (e3, Inr (length (chunks e3))))"

definition ingest_text :: "'v tfidf \<Rightarrow> 'v engine \<Rightarrow> pystr \<Rightarrow> pystr \<Rightarrow> 'v engine \<times> (error + nat)" where
  "ingest_text T e txt name =
     (if txt = [] \<or> py_strip txt = [] then (e, Inl EmptyInputText)
      else load_text T e txt name)"

text \<open>
  The file system and pdfplumber: whether the path exists, \<^verbatim>\<open>Path.suffix\<close> and
  \<^verbatim>\<open>Path.name\<close>, \<^verbatim>\<open>read_text(encoding="utf-8")\<close>, and what \<^verbatim>\<open>extract_text()\<close> returns
  for each page of a PDF (\<open>None\<close> or a string).
\<close>

record file_env =
  path_exists :: "pystr \<Rightarrow> bool"
  path_suffix :: "pystr \<Rightarrow> pystr"
  path_name :: "pystr \<Rightarrow> pystr"
  read_text :: "pystr \<Rightarrow> error + pystr"
  pdf_pages :: "pystr \<Rightarrow> error + pystr option list"

fun pdf_loop :: "pystr option list \<Rightarrow> pystr list \<Rightarrow> pystr list" where
  "pdf_loop [] text_parts = text_parts"
| "pdf_loop (page_text # pages) text_parts =
     (case page_text of
        None \<Rightarrow> pdf_loop pages text_parts
      | Some t \<Rightarrow> if t \<noteq> [] then pdf_loop pages (text_parts @ [t])
                  else pdf_loop pages text_parts)"

definition extract_text_from_pdf :: "file_env \<Rightarrow> pystr \<Rightarrow> error + pystr" where
  "extract_text_from_pdf E p =
     (case pdf_pages E p of
        Inl err \<Rightarrow> Inl err
      | Inr pages \<Rightarrow> Inr (py_join [10] (pdf_loop pages [])))"

definition ingest_file ::
  "file_env \<Rightarrow> 'v tfidf \<Rightarrow> 'v engine \<Rightarrow> pystr \<Rightarrow> 'v engine \<times> (error + nat)" where
  "ingest_file E T e p =
     (if \<not> path_exists E p then (e, Inl (FileNotFoundError p))
      else let suffix = py_lower (path_suffix E p) in
        case (if suffix = py ''.txt'' then read_text E p
              else if suffix = py ''.pdf'' then extract_text_from_pdf E p
              else Inl UnsupportedFormat) of
          Inl err \<Rightarrow> (e, Inl err)
        | Inr txt \<Rightarrow>
            if txt = [] \<or> py_strip txt = [] then (e, Inl EmptyDocument)
            else load_text T e txt (path_name E p))"

text \<open>The loop of \<^verbatim>\<open>retrieve\<close> over \<^verbatim>\<open>zip(distances[0], indices[0])\<close>.\<close>

fun retrieve_loop ::
  "pystr list \<Rightarrow> (real \<times> int) list \<Rightarrow> retrieval_result list \<Rightarrow> retrieval_result list" where
  "retrieve_loop cs [] results = results"
| "retrieve_loop cs ((distance, idx) # rest) results =
     (if idx < 0 \<or> idx \<ge> int (length cs) then retrieve_loop cs rest results
      else retrieve_loop cs rest (results @ [\<lparr>chunk = cs ! nat idx, score = distance\<rparr>]))"

definition retrieve ::
  "'v tfidf \<Rightarrow> 'v engine \<Rightarrow> pystr \<Rightarrow> int \<Rightarrow> error + retrieval_result list" where
  "retrieve T e query top_k =
     (case index e of
        None \<Rightarrow> Inl NoKnowledgeBase
      | Some ix \<Rightarrow>
          if chunks e = [] then Inl NoKnowledgeBase
          else case transform T (vectorizer e) query of
                 Inl err \<Rightarrow> Inl err
               | Inr q_vec \<Rightarrow>
                   (case index_search ix q_vec top_k of
                      (distances, indices) \<Rightarrow>
                        Inr (retrieve_loop (chunks e) (zip distances indices) [])))"

text \<open>
  The request \<^verbatim>\<open>answer\<close> sends to the Groq client, and the client: it raises or returns
  the content of the first choice.
\<close>

record gen_request =
  req_model :: pystr
  req_messages :: "(pystr \<times> pystr) list"
  req_temperature :: real

type_synonym generator = "gen_request \<Rightarrow> error + pystr"

definition no_context_answer :: pystr where
  "no_context_answer = py ''I could not retrieve relevant context.''"

definition build_prompt :: "pystr \<Rightarrow> pystr \<Rightarrow> pystr" where
  "build_prompt context query =
     py ''You are a helpful assistant. '' @
     py ''Answer using only the provided context. '' @
     py ''If the context is insufficient, say exactly: '' @ [39] @ py ''I don'' @ [39] @
     py ''t know based on the provided context.'' @ [39, 10, 10] @
     py ''Context:'' @ [10] @ context @ [10, 10] @
     py ''Question: '' @ query @ [10, 10] @
     py ''Answer:''"

text \<open>
  \<^verbatim>\<open>answer\<close> returns its outcome and the requests it has sent to the client, in order.
\<close>

definition answer ::
  "generator \<Rightarrow> 'v tfidf \<Rightarrow> 'v engine \<Rightarrow> pystr \<Rightarrow> int \<Rightarrow> real \<Rightarrow>
   (error + pystr \<times> retrieval_result list) \<times> gen_request list" where
  "answer G T e query top_k temperature =
     (case retrieve T e query top_k of
        Inl err \<Rightarrow> (Inl err, [])
      | Inr docs \<Rightarrow>
          if docs = [] then (Inr (no_context_answer, []), [])
          else let context = py_join [10, 10] (map chunk docs);
                   prompt = build_prompt context query;
                   req = \<lparr>req_model = model_name e,
                          req_messages = [(py ''user'', prompt)],
                          req_temperature = temperature\<rparr>
               in case G req of
                    Inl err \<Rightarrow> (Inl err, [req])
                  | Inr content \<Rightarrow> (Inr (py_strip content, docs), [req]))"

section \<open>Notions the properties are stated with\<close>

subsection \<open>Words and windows\<close>

text \<open>A word: a non-empty string without whitespace, as \<^verbatim>\<open>split()\<close> returns them.\<close>

definition word :: "pystr \<Rightarrow> bool" where
  "word w \<longleftrightarrow> w \<noteq> [] \<and> list_all (\<lambda>c. \<not> is_space c) w"

text \<open>
  The windows of \<open>n\<close> elements taken every \<open>st\<close> elements, the last one being the first
  that reaches the end of the list.
\<close>

function windows :: "nat \<Rightarrow> nat \<Rightarrow> 'a list \<Rightarrow> 'a list list" where
  "windows n st ws =
     (if length ws \<le> n \<or> st = 0 then [ws] else take n ws # windows n st (drop st ws))"
  by pat_completeness auto
termination
  by (relation "measure (\<lambda>(n, st, ws). length ws)") auto

text \<open>
  The source rebuilt from the chunks: the first \<open>size_words - overlap_words\<close> words of
  every chunk but the last, then the last chunk.
\<close>

definition rebuild_words :: "int \<Rightarrow> int \<Rightarrow> pystr list \<Rightarrow> pystr list" where
  "rebuild_words size_words overlap_words cs =
     concat (map (\<lambda>c. take (nat (size_words - overlap_words)) (py_split c)) (butlast cs)) @
     py_split (last cs)"

subsection \<open>The state of the knowledge base\<close>

text \<open>
  The index holds one row per stored chunk. An engine without an index has no row count
  to compare.
\<close>

definition kb_consistent :: "'v engine \<Rightarrow> bool" where
  "kb_consistent e \<longleftrightarrow>
     (case index e of None \<Rightarrow> True | Some ix \<Rightarrow> ntotal ix = length (chunks e))"

text \<open>A loaded knowledge base: the engine as a successful ingest leaves it.\<close>

inductive loaded :: "file_env \<Rightarrow> 'v tfidf \<Rightarrow> 'v engine \<Rightarrow> bool" for E T where
  by_text: "ingest_text T e txt name = (e', Inr n) \<Longrightarrow> loaded E T e'"
| by_file: "ingest_file E T e p = (e', Inr n) \<Longrightarrow> loaded E T e'"

code_pred loaded .

text \<open>
  An engine on which no ingest has succeeded: a new engine, after any number of ingests
  that raised.
\<close>

inductive never_loaded :: "file_env \<Rightarrow> 'v tfidf \<Rightarrow> 'v engine \<Rightarrow> bool" for E T where
  fresh: "new_engine T key_arg key_env model size_words overlap_words = Inr e \<Longrightarrow>
          never_loaded E T e"
| text_failed: "never_loaded E T e \<Longrightarrow> ingest_text T e txt name = (e', Inl err) \<Longrightarrow>
          never_loaded E T e'"
| file_failed: "never_loaded E T e \<Longrightarrow> ingest_file E T e p = (e', Inl err) \<Longrightarrow>
          never_loaded E T e'"

code_pred never_loaded .

section \<open>A small vectorizer, file system and generator to run the engine on\<close>

text \<open>
  A vectorizer that counts the words of its vocabulary (the words of the documents that
  are not stop words) and raises on an empty vocabulary, as scikit-learn does; a file
  system of four files; a generator.
\<close>

definition toy_stop_words :: "pystr list" where
  "toy_stop_words = [py ''the'', py ''a'', py ''of'']"

definition toy_vocabulary :: "pystr list \<Rightarrow> pystr list" where
  "toy_vocabulary docs =
     remdups (filter (\<lambda>w. w \<notin> set toy_stop_words) (concat (map py_split docs)))"

definition toy_row :: "pystr list \<Rightarrow> pystr \<Rightarrow> real list" where
  "toy_row vocab doc = map (\<lambda>w. real (count_list (py_split doc) w)) vocab"

definition toy_tfidf :: "pystr list option tfidf" where
  "toy_tfidf =
     \<lparr>new_vectorizer = None,
      fit_transform = (\<lambda>v docs.
         let vocab = toy_vocabulary docs in
         if vocab = [] then (v, Inl (ValueError ''empty vocabulary''))
         else (Some vocab, Inr \<lparr>nd_cols = length vocab, nd_rows = map (toy_row vocab) docs\<rparr>)),
      transform = (\<lambda>v q.
         case v of None \<Rightarrow> Inl (LibraryError ''NotFittedError'')
         | Some vocab \<Rightarrow> Inr (toy_row vocab q))\<rparr>"

definition toy_engine :: "'v \<Rightarrow> 'v engine" where
  "toy_engine v =
     \<lparr>model_name = py ''llama-3.1-8b-instant'', chunk_size_words = 2,
      chunk_overlap_words = 0, groq_api_key = py ''gsk'', vectorizer = v, index = None,
      chunks = [], embeddings = None, source_name = None\<rparr>"

definition toy_document :: pystr where
  "toy_document = py ''apple banana apple orange car truck''"

definition toy_env :: file_env where
  "toy_env =
     \<lparr>path_exists = (\<lambda>p. p \<in> set [py ''notes.txt'', py ''NOTES.TXT'', py ''blank.txt'',
                                   py ''report.docx'']),
      path_suffix = (\<lambda>p. if 46 \<in> set p then 46 # rev (takeWhile (\<lambda>c. c \<noteq> 46) (rev p)) else []),
      path_name = (\<lambda>p. p),
      read_text = (\<lambda>p. if p = py ''blank.txt'' then Inr [32, 10, 9]
                        else if p = py ''notes.txt'' \<or> p = py ''NOTES.TXT'' then Inr toy_document
                        else Inl (LibraryError ''UnicodeDecodeError'')),
      pdf_pages = (\<lambda>p. Inl (LibraryError ''PDFSyntaxError''))\<rparr>"

definition toy_kb :: "pystr list option engine" where
  "toy_kb = fst (ingest_text toy_tfidf (toy_engine None) toy_document (py ''input_text''))"

definition stale_kb :: "pystr list option engine" where
  "stale_kb = fst (ingest_text toy_tfidf toy_kb (py ''the'') (py ''input_text''))"

definition hollow_kb :: "pystr list option engine" where
  "hollow_kb = toy_kb\<lparr>index := Some (IndexFlatL2 5)\<rparr>"

definition toy_generator :: generator where
  "toy_generator req = Inr (py ''generated'')"

section \<open>The chunker\<close>

declare py_range.simps [simp del] windows.simps [simp del]

lemma split_aux_nonspace:
  "list_all (\<lambda>c. \<not> is_space c) w \<Longrightarrow> split_aux cur (w @ rest) = split_aux (cur @ w) rest"
  by (induction w arbitrary: cur) auto

lemma split_aux_join:
  "list_all word (w # ws) \<Longrightarrow> split_aux cur (py_join (py '' '') (w # ws)) = (cur @ w) # ws"
proof (induction ws arbitrary: cur w)
  case Nil
  then show ?case
    using split_aux_nonspace [of w cur "[]"] by (simp add: word_def)
next
  case (Cons w' ws)
  have sp: "py '' '' = [32]" by (simp add: py_def)
  have "split_aux cur (w @ 32 # py_join [32] (w' # ws)) = split_aux (cur @ w) (32 # py_join [32] (w' # ws))"
    using Cons.prems split_aux_nonspace [of w cur] by (simp add: word_def)
  also have "\<dots> = (cur @ w) # split_aux [] (py_join [32] (w' # ws))"
    using Cons.prems by (simp add: is_space_def word_def)
  also have "\<dots> = (cur @ w) # w' # ws"
    using Cons.IH [of w' "[]"] Cons.prems by (simp add: sp)
  finally show ?case by (simp add: sp)
qed

lemma py_split_join:
  "list_all word ws \<Longrightarrow> py_split (py_join (py '' '') ws) = ws"
  by (cases ws) (simp_all add: py_split_def split_aux_join)

lemma split_aux_words:
  "list_all (\<lambda>c. \<not> is_space c) cur \<Longrightarrow> list_all word (split_aux cur s)"
  by (induction s arbitrary: cur) (auto simp: word_def)

lemma py_split_words: "list_all word (py_split s)"
  by (simp add: py_split_def split_aux_words)

lemma join_nonempty: "list_all word (w # ws) \<Longrightarrow> py_join sep (w # ws) \<noteq> []"
  by (cases ws) (auto simp: word_def)

lemma hd_join: "list_all word (w # ws) \<Longrightarrow> hd (py_join sep (w # ws)) = hd w"
  by (cases ws) (auto simp: word_def)

lemma last_join:
  "list_all word (w # ws) \<Longrightarrow> last (py_join sep (w # ws)) = last (last (w # ws))"
proof (induction ws arbitrary: w)
  case Nil
  then show ?case by simp
next
  case (Cons w' ws)
  then have "py_join sep (w' # ws) \<noteq> []" using join_nonempty [of w' ws sep] by simp
  with Cons show ?case by simp
qed

lemma dropWhile_hd: "s \<noteq> [] \<Longrightarrow> \<not> P (hd s) \<Longrightarrow> dropWhile P s = s"
  by (cases s) auto

lemma word_hd: "word w \<Longrightarrow> \<not> is_space (hd w)"
  by (cases w) (auto simp: word_def)

lemma word_last: "word w \<Longrightarrow> \<not> is_space (last w)"
  by (auto simp: word_def list_all_iff)

lemma py_strip_join:
  assumes "list_all word (w # ws)"
  shows "py_strip (py_join sep (w # ws)) = py_join sep (w # ws)"
proof -
  let ?s = "py_join sep (w # ws)"
  have ne: "?s \<noteq> []" using assms by (rule join_nonempty)
  have "word (last (w # ws))" using assms by (metis last_in_set list.discI list_all_iff)
  then have l: "\<not> is_space (last ?s)" using last_join [OF assms] word_last by simp
  have h: "\<not> is_space (hd ?s)" using hd_join [OF assms] word_hd assms by simp
  have 1: "dropWhile is_space ?s = ?s" using ne h by (rule dropWhile_hd)
  have "hd (rev ?s) = last ?s" using ne by (simp add: hd_rev)
  then have 2: "dropWhile is_space (rev ?s) = rev ?s" using ne l by (simp add: dropWhile_hd)
  show ?thesis unfolding py_strip_def 1 2 by simp
qed


lemma py_slice_window:
  assumes "0 \<le> start" "start < int (length ws)" "0 < n"
  shows "py_slice ws start (start + n) = take (nat n) (drop (nat start) ws)"
proof (cases "start + n \<le> int (length ws)")
  case True
  have "nat (start + n - start) = nat n" by simp
  then show ?thesis
    using assms True by (simp add: py_slice_def Let_def min_def)
next
  case False
  have "nat (int (length ws) - start) = length ws - nat start"
    using assms by (simp add: nat_diff_distrib)
  moreover have "length ws - nat start \<le> nat n" using False assms by simp
  ultimately show ?thesis
    using assms False by (simp add: py_slice_def Let_def min_def)
qed

lemma windows_final: "length ws \<le> n \<or> st = 0 \<Longrightarrow> windows n st ws = [ws]"
  by (subst windows.simps) simp

lemma windows_step:
  "\<not> (length ws \<le> n \<or> st = 0) \<Longrightarrow> windows n st ws = take n ws # windows n st (drop st ws)"
  by (subst windows.simps) simp

lemma windows_nonempty: "ws \<noteq> [] \<Longrightarrow> st \<le> n \<Longrightarrow> [] \<notin> set (windows n st ws)"
proof (induction n st ws rule: windows.induct)
  case (1 n st ws)
  show ?case
  proof (cases "length ws \<le> n \<or> st = 0")
    case True
    then show ?thesis using "1.prems" by (simp add: windows_final)
  next
    case False
    then have "drop st ws \<noteq> []" using "1.prems" by simp
    then show ?thesis using False "1.IH" "1.prems" by (auto simp: windows_step)
  qed
qed

lemma windows_words: "list_all P ws \<Longrightarrow> list_all (list_all P) (windows n st ws)"
proof (induction n st ws rule: windows.induct)
  case (1 n st ws)
  show ?case
  proof (cases "length ws \<le> n \<or> st = 0")
    case True
    then show ?thesis using "1.prems" by (simp add: windows_final)
  next
    case False
    have "list_all P (take n ws)" "list_all P (drop st ws)"
      using "1.prems" by (auto simp: list_all_iff dest: in_set_takeD in_set_dropD)
    then show ?thesis using False "1.IH" by (simp add: windows_step)
  qed
qed

lemma windows_not_Nil: "windows n st ws \<noteq> []"
  by (cases "length ws \<le> n \<or> st = 0") (simp_all add: windows_final windows_step)

lemma windows_reconstruct:
  "st \<le> n \<Longrightarrow>
   concat (map (take st) (butlast (windows n st ws))) @ last (windows n st ws) = ws"
proof (induction n st ws rule: windows.induct)
  case (1 n st ws)
  show ?case
  proof (cases "length ws \<le> n \<or> st = 0")
    case True
    then show ?thesis by (simp add: windows_final)
  next
    case False
    have "windows n st ws = take n ws # windows n st (drop st ws)"
      using False by (rule windows_step)
    then show ?thesis
      using False "1.IH" "1.prems" windows_not_Nil [of n st "drop st ws"]
      by (simp add: min_absorb2)
  qed
qed

lemma last_windows: "ws \<noteq> [] \<Longrightarrow> st \<le> n \<Longrightarrow> last (last (windows n st ws)) = last ws"
proof (induction n st ws rule: windows.induct)
  case (1 n st ws)
  show ?case
  proof (cases "length ws \<le> n \<or> st = 0")
    case True
    then show ?thesis by (simp add: windows_final)
  next
    case False
    have w: "windows n st ws = take n ws # windows n st (drop st ws)"
      using False by (rule windows_step)
    have "drop st ws \<noteq> []" using False "1.prems" by simp
    then show ?thesis
      using False "1.IH" "1.prems" windows_not_Nil [of n st "drop st ws"]
      by (simp add: w last_drop)
  qed
qed

lemma chunk_loop_windows:
  assumes "list_all word ws"
  shows "0 < st \<Longrightarrow> st \<le> n \<Longrightarrow> 0 \<le> start \<Longrightarrow> start < int (length ws) \<Longrightarrow>
    chunk_loop n ws (py_range start (int (length ws)) st) acc =
    acc @ map (py_join (py '' '')) (windows (nat n) (nat st) (drop (nat start) ws))"
proof (induction start "int (length ws)" st arbitrary: acc rule: py_range.induct)
  case (1 start st)
  let ?rest = "drop (nat start) ws"
  let ?c = "py_join (py '' '') (take (nat n) ?rest)"
  have n: "0 < n" using "1.prems" by simp
  have sl: "py_slice ws start (start + n) = take (nat n) ?rest"
    using "1.prems"(3,4) n by (rule py_slice_window)
  have ne: "take (nat n) ?rest \<noteq> []" using "1.prems" n by simp
  have "list_all word (take (nat n) ?rest)"
    using assms(1) by (auto simp: list_all_iff dest: in_set_takeD in_set_dropD)
  then have strip: "py_strip ?c = ?c" and nonempty: "?c \<noteq> []"
    using ne by (cases "take (nat n) ?rest"; simp add: py_strip_join join_nonempty del: py_join.simps)+
  have r: "py_range start (int (length ws)) st = start # py_range (start + st) (int (length ws)) st"
    using "1.prems" by (subst py_range.simps) simp
  show ?case
  proof (cases "start + n \<ge> int (length ws)")
    case True
    then have len: "length ?rest \<le> nat n" using "1.prems" by simp
    then have t: "take (nat n) ?rest = ?rest" by simp
    have w1: "windows (nat n) (nat st) ?rest = [?rest]"
      using len by (subst windows.simps) simp
    show ?thesis
      using True strip nonempty unfolding t by (simp add: r sl Let_def t w1)
  next
    case False
    then have lt: "start + st < int (length ws)" using "1.prems" by simp
    have w: "windows (nat n) (nat st) ?rest =
        take (nat n) ?rest # windows (nat n) (nat st) (drop (nat st) ?rest)"
      using False "1.prems" by (subst windows.simps) auto
    have d: "drop (nat st) ?rest = drop (nat (start + st)) ws"
      using "1.prems" by (simp add: nat_add_distrib add.commute)
    have "chunk_loop n ws (py_range (start + st) (int (length ws)) st) (acc @ [?c]) =
          (acc @ [?c]) @
            map (py_join (py '' '')) (windows (nat n) (nat st) (drop (nat (start + st)) ws))"
      using "1.hyps" [of "acc @ [?c]"] "1.prems" lt by simp
    moreover have "windows (nat n) (nat st) ?rest =
        take (nat n) ?rest # windows (nat n) (nat st) (drop (nat (start + st)) ws)"
      using w d by simp
    ultimately show ?thesis
      using False by (simp add: r sl strip nonempty Let_def)
  qed
qed

lemma chunk_text_windows:
  assumes "0 \<le> ov" "ov < n" "py_split s \<noteq> []"
  shows "chunk_text n ov s =
    map (py_join (py '' '')) (windows (nat n) (nat (n - ov)) (py_split s))"
proof -
  have "max 1 (n - ov) = n - ov" using assms by simp
  then show ?thesis
    using assms chunk_loop_windows [of "py_split s" "n - ov" n 0 "[]"] py_split_words [of s]
    by (simp add: chunk_text_def Let_def)
qed


lemma rebuild_windows:
  assumes "list_all (list_all word) W" "[] \<notin> set W" "W \<noteq> []"
  shows "rebuild_words n ov (map (py_join (py '' '')) W) =
         concat (map (take (nat (n - ov))) (butlast W)) @ last W"
proof -
  have rt: "py_split (py_join (py '' '') w) = w" if "w \<in> set W" for w
    using that assms(1) by (simp add: py_split_join list_all_iff)
  have "map (\<lambda>c. take (nat (n - ov)) (py_split c)) (map (py_join (py '' '')) (butlast W)) =
        map (take (nat (n - ov))) (butlast W)"
    using rt by (auto dest: in_set_butlastD)
  moreover have "py_split (last (map (py_join (py '' '')) W)) = last W"
    using assms(3) rt by (simp add: last_map)
  ultimately show ?thesis
    by (simp add: rebuild_words_def map_butlast)
qed

text \<open>
  Claim C1. With 3 words per chunk and 1 word of overlap, the text
  \<^verbatim>\<open>The cat sat. The dog ran.\<close> is cut into \<^verbatim>\<open>The cat sat.\<close>, \<^verbatim>\<open>sat. The dog\<close> and
  \<^verbatim>\<open>dog ran.\<close>: the step is 2, the windows start at words 0, 2 and 4, and the loop
  stops after the window that reaches the sixth word.
\<close>

theorem chunk_text_scenario:
  "chunk_text 3 1 (py ''The cat sat. The dog ran.'') =
     [py ''The cat sat.'', py ''sat. The dog'', py ''dog ran.'']"
  by (simp add: chunk_text_def py_def py_split_def is_space_def py_strip_def py_slice_def
      py_range.simps Let_def)

text \<open>
  Claim C3, for an overlap that is not negative. When the text has a word and
  \<open>0 \<le> overlap < size\<close>, the first \<open>size - overlap\<close> words of every chunk but the last,
  followed by the words of the last chunk, are the words of the text, and the last word
  of the last chunk is the last word of the text.
\<close>

theorem chunk_text_round_trip:
  assumes "py_split s \<noteq> []" and "0 \<le> ov" and "ov < n"
  shows "rebuild_words n ov (chunk_text n ov s) = py_split s \<and>
         last (py_split (last (chunk_text n ov s))) = last (py_split s)"
proof -
  let ?W = "windows (nat n) (nat (n - ov)) (py_split s)"
  have le: "nat (n - ov) \<le> nat n" using assms by simp
  have cs: "chunk_text n ov s = map (py_join (py '' '')) ?W"
    using assms(2,3,1) by (rule chunk_text_windows)
  have W: "list_all (list_all word) ?W" "[] \<notin> set ?W" "?W \<noteq> []"
    by (rule windows_words [OF py_split_words], rule windows_nonempty [OF assms(1) le],
        rule windows_not_Nil)
  have "rebuild_words n ov (chunk_text n ov s) = py_split s"
    using rebuild_windows [OF W] windows_reconstruct [OF le] by (simp add: cs)
  moreover have "list_all word (last ?W)"
    using W(1) last_in_set [OF W(3)] by (simp add: list_all_iff)
  then have "py_split (py_join (py '' '') (last ?W)) = last ?W"
    by (simp add: py_split_join)
  then have "last (py_split (last (chunk_text n ov s))) = last (py_split s)"
    using W(3) last_windows [OF assms(1) le] by (simp add: cs last_map)
  ultimately show ?thesis by simp
qed

theorem chunk_text_round_trip_witness:
  "py_split (py ''a b c d e'') \<noteq> [] \<and> (0::int) \<le> 1 \<and> (1::int) < 3 \<and>
   chunk_text 3 1 (py ''a b c d e'') = [py ''a b c'', py ''c d e''] \<and>
   rebuild_words 3 1 (chunk_text 3 1 (py ''a b c d e'')) = py_split (py ''a b c d e'') \<and>
   last (py_split (last (chunk_text 3 1 (py ''a b c d e'')))) = last (py_split (py ''a b c d e''))"
proof -
  have ne: "py_split (py ''a b c d e'') \<noteq> []"
    by (simp add: py_def py_split_def is_space_def)
  have c: "chunk_text 3 1 (py ''a b c d e'') = [py ''a b c'', py ''c d e'']"
    by (simp add: chunk_text_def py_def py_split_def is_space_def py_strip_def py_slice_def
        py_range.simps Let_def)
  show ?thesis
    using ne c chunk_text_round_trip [of "py ''a b c d e''" 1 3] by simp
qed

text \<open>
  With a negative overlap the step is larger than the chunk and the words between two
  windows are in no chunk: with 2 words per chunk and an overlap of -1, the third of
  four words is lost.
\<close>

theorem negative_overlap_counterexample:
  "py_split (py ''a b c d'') \<noteq> [] \<and> (- 1 :: int) < 2 \<and>
   chunk_text 2 (- 1) (py ''a b c d'') = [py ''a b'', py ''d''] \<and>
   rebuild_words 2 (- 1) (chunk_text 2 (- 1) (py ''a b c d'')) = [py ''a'', py ''b'', py ''d''] \<and>
   rebuild_words 2 (- 1) (chunk_text 2 (- 1) (py ''a b c d'')) \<noteq> py_split (py ''a b c d'')"
  by (simp add: rebuild_words_def chunk_text_def py_def py_split_def is_space_def py_strip_def
      py_slice_def py_range.simps Let_def)

section \<open>Ingestion, retrieval without a knowledge base, answers\<close>

lemma build_index_cases:
  "build_index T e cs = (e', r) \<Longrightarrow>
   (\<exists>v' X. fit_transform T (vectorizer e) cs = (v', Inr X) \<and> nd_size X \<noteq> 0 \<and> r = Inr () \<and>
      e' = e\<lparr>vectorizer := v', index := Some \<lparr>ix_dim = nd_cols X, ix_rows = nd_rows X\<rparr>,
             embeddings := Some X\<rparr>) \<or>
   (\<exists>err. r = Inl err \<and> e' = e\<lparr>vectorizer := fst (fit_transform T (vectorizer e) cs)\<rparr>)"
  by (auto simp: build_index_def Let_def IndexFlatL2_def index_add_def shape1_def
      split: prod.splits sum.splits if_splits)

lemma load_text_cases:
  assumes "load_text T e doc name = (e', r)"
  defines "cs \<equiv> chunk_text (chunk_size_words e) (chunk_overlap_words e) doc"
  shows "(\<exists>v' X. fit_transform T (vectorizer e) cs = (v', Inr X) \<and> nd_size X \<noteq> 0 \<and>
            r = Inr (length cs) \<and>
            e' = e\<lparr>vectorizer := v', index := Some \<lparr>ix_dim = nd_cols X, ix_rows = nd_rows X\<rparr>,
                   chunks := cs, embeddings := Some X, source_name := Some name\<rparr>) \<or>
         (\<exists>err. r = Inl err \<and>
            e' = e\<lparr>vectorizer := fst (fit_transform T (vectorizer e) cs), chunks := cs,
                   source_name := Some name\<rparr>)"
proof -
  let ?e2 = "e\<lparr>source_name := Some name, chunks := cs\<rparr>"
  obtain e3 r3 where b: "build_index T ?e2 cs = (e3, r3)" by (cases "build_index T ?e2 cs")
  have r: "(e', r) = (case r3 of Inl err \<Rightarrow> (e3, Inl err) | Inr u \<Rightarrow> (e3, Inr (length (chunks e3))))"
    using assms(1) b by (simp add: load_text_def Let_def cs_def)
  from build_index_cases [OF b] show ?thesis
  proof (elim disjE exE conjE)
    fix v' X
    assume "fit_transform T (vectorizer ?e2) cs = (v', Inr X)" "nd_size X \<noteq> 0" "r3 = Inr ()"
      "e3 = ?e2\<lparr>vectorizer := v', index := Some \<lparr>ix_dim = nd_cols X, ix_rows = nd_rows X\<rparr>,
             embeddings := Some X\<rparr>"
    then show ?thesis using r by simp
  next
    fix err
    assume "r3 = Inl err" "e3 = ?e2\<lparr>vectorizer := fst (fit_transform T (vectorizer ?e2) cs)\<rparr>"
    then show ?thesis using r by simp
  qed
qed


lemma py_strip_Nil [simp]: "py_strip [] = []"
  by (simp add: py_strip_def)

lemma ingest_text_cases:
  "ingest_text T e doc name = (e', r) \<Longrightarrow>
   (py_strip doc = [] \<and> e' = e \<and> r = Inl EmptyInputText) \<or>
   (py_strip doc \<noteq> [] \<and> load_text T e doc name = (e', r))"
  by (auto simp: ingest_text_def split: if_splits)

lemma ingest_file_cases:
  "ingest_file E T e p = (e', r) \<Longrightarrow>
   (e' = e \<and> (\<exists>err. r = Inl err)) \<or>
   (\<exists>doc. py_strip doc \<noteq> [] \<and> load_text T e doc (path_name E p) = (e', r))"
  by (auto simp: ingest_file_def Let_def split: if_splits sum.splits)

lemma ingest_cases:
  assumes "ingest_text T e doc name = (e', r) \<or> ingest_file E T e p = (e', r)"
  shows "(e' = e \<and> (\<exists>err. r = Inl err)) \<or> (\<exists>t nm. load_text T e t nm = (e', r))"
  using assms ingest_text_cases [of T e doc name e' r] ingest_file_cases [of E T e p e' r]
  by blast

lemma load_text_failure:
  "load_text T e doc name = (e', Inl err) \<Longrightarrow> index e' = index e \<and> embeddings e' = embeddings e"
  by (drule load_text_cases) auto

lemma load_text_success:
  assumes "load_text T e doc name = (e', Inr n)" and "sklearn_contract T"
  shows "\<exists>X. index e' = Some \<lparr>ix_dim = nd_cols X, ix_rows = nd_rows X\<rparr> \<and>
             embeddings e' = Some X \<and> length (nd_rows X) = length (chunks e') \<and>
             chunks e' \<noteq> [] \<and> n = length (chunks e') \<and>
             (\<forall>q. \<exists>qv. transform T (vectorizer e') q = Inr qv)"
proof -
  let ?cs = "chunk_text (chunk_size_words e) (chunk_overlap_words e) doc"
  from load_text_cases [OF assms(1)] obtain v' X where
    f: "fit_transform T (vectorizer e) ?cs = (v', Inr X)" and sz: "nd_size X \<noteq> 0"
    and n: "n = length ?cs"
    and e': "e' = e\<lparr>vectorizer := v', index := Some \<lparr>ix_dim = nd_cols X, ix_rows = nd_rows X\<rparr>,
                   chunks := ?cs, embeddings := Some X, source_name := Some name\<rparr>"
    by auto
  from assms(2) f have c: "length (nd_rows X) = length ?cs" "\<forall>q. \<exists>qv. transform T v' q = Inr qv"
    unfolding sklearn_contract_def by blast+
  from sz c(1) have "?cs \<noteq> []" by (auto simp: nd_size_def shape0_def)
  with c n e' show ?thesis by simp
qed

text \<open>
  Claim C2, as the code has it. When the vectorizer returns one row per document, an
  ingest (of a text or of a file) that returns leaves an index with exactly one row per
  stored chunk and returns the number of chunks; an ingest that raises leaves the index
  and the embedding matrix as they were. The source name, the chunk list and the index
  are assigned one after the other, so an ingest that raises while the index is built
  leaves the new chunk list beside the previous index. \<open>retrieve\<close> and \<open>answer\<close> return
  no engine: they change nothing.
\<close>

theorem ingest_consistency:
  assumes "sklearn_contract T"
    and "ingest_text T e doc name = (e', r) \<or> ingest_file E T e p = (e', r)"
  shows "case r of
           Inr n \<Rightarrow> (\<exists>ix. index e' = Some ix \<and> ntotal ix = length (chunks e')) \<and>
                    n = length (chunks e') \<and> kb_consistent e'
         | Inl err \<Rightarrow> index e' = index e \<and> embeddings e' = embeddings e"
proof (cases r)
  case (Inl err)
  then show ?thesis
    using ingest_cases [OF assms(2)] load_text_failure [of T e _ _ e' err] by auto
next
  case (Inr n)
  then obtain t nm where "load_text T e t nm = (e', Inr n)"
    using ingest_cases [OF assms(2)] by auto
  from load_text_success [OF this assms(1)] show ?thesis
    using Inr by (auto simp: kb_consistent_def ntotal_def)
qed

lemma never_loaded_index: "never_loaded E T e \<Longrightarrow> index e = None"
proof (induction rule: never_loaded.induct)
  case (fresh key_arg key_env model size_words overlap_words e)
  then show ?case
    by (auto simp: new_engine_def Let_def split: option.splits if_splits)
next
  case (text_failed e doc name e' err)
  then show ?case
    using ingest_cases [of T e doc name e' "Inl err"] load_text_failure [of T e _ _ e' err]
    by auto
next
  case (file_failed e p e' err)
  then show ?case
    using ingest_cases [of T e _ _ e' "Inl err" E p] load_text_failure [of T e _ _ e' err]
    by auto
qed

text \<open>
  Claim C6. On an engine on which no ingest has succeeded, and whenever the engine has no
  index or no chunk, \<open>retrieve\<close> raises the error of the missing knowledge base, for every
  query and every \<open>top_k\<close>.
\<close>

theorem retrieve_without_knowledge_base:
  assumes "never_loaded E T e \<or> index e = None \<or> chunks e = []"
  shows "retrieve T e query top_k = Inl NoKnowledgeBase"
  using assms never_loaded_index [of E T e]
  by (auto simp: retrieve_def split: option.splits)

text \<open>
  Claim C7. When the retriever returns no result, \<open>answer\<close> returns the fixed sentence
  with an empty list of results and sends no request to the generator.
\<close>

theorem answer_without_context:
  assumes "retrieve T e query top_k = Inr []"
  shows "answer G T e query top_k temperature = (Inr (no_context_answer, []), [])"
  using assms by (simp add: answer_def)


text \<open>
  Claim C9, with the suffix compared in lower case as the code does. For an existing
  file whose lower-cased suffix is neither \<^verbatim>\<open>.txt\<close> nor \<^verbatim>\<open>.pdf\<close>, \<open>ingest_file\<close>
  raises the error of the unsupported format; for a file whose lower-cased suffix is
  \<^verbatim>\<open>.txt\<close> and whose content is empty or only whitespace, it raises the error of the
  empty document. Both leave the engine as it was.
\<close>

theorem ingest_file_rejections:
  assumes "path_exists E p"
  shows "(py_lower (path_suffix E p) \<noteq> py ''.txt'' \<and> py_lower (path_suffix E p) \<noteq> py ''.pdf'' \<longrightarrow>
            ingest_file E T e p = (e, Inl UnsupportedFormat)) \<and>
         (py_lower (path_suffix E p) = py ''.txt'' \<and> read_text E p = Inr doc \<and> py_strip doc = [] \<longrightarrow>
            ingest_file E T e p = (e, Inl EmptyDocument))"
  using assms by (auto simp: ingest_file_def Let_def)

lemma load_text_name:
  "load_text T e doc name = (e1, r1) \<Longrightarrow> load_text T e doc name' = (e2, r2) \<Longrightarrow>
   r1 = r2 \<and> e1\<lparr>source_name := x\<rparr> = e2\<lparr>source_name := x\<rparr>"
  by (auto simp: load_text_def build_index_def Let_def split: prod.splits sum.splits if_splits)

text \<open>
  Claim C10. For a text that is not only whitespace, ingesting an existing
  \<^verbatim>\<open>.txt\<close> file with this content is ingesting the text under the file's name; and
  ingesting the text under any other name gives the same outcome and the same engine but
  for the source name.
\<close>

theorem ingest_text_file_agree:
  assumes "path_exists E p" and "py_lower (path_suffix E p) = py ''.txt''"
    and "read_text E p = Inr doc" and "py_strip doc \<noteq> []"
  shows "ingest_file E T e p = ingest_text T e doc (path_name E p) \<and>
         snd (ingest_text T e doc name) = snd (ingest_file E T e p) \<and>
         (fst (ingest_text T e doc name))\<lparr>source_name := x\<rparr> =
         (fst (ingest_file E T e p))\<lparr>source_name := x\<rparr>"
proof -
  have f: "ingest_file E T e p = load_text T e doc (path_name E p)"
    using assms by (auto simp: ingest_file_def Let_def)
  have t: "ingest_text T e doc nm = load_text T e doc nm" for nm
    using assms(4) by (auto simp: ingest_text_def)
  show ?thesis
    using load_text_name [of T e doc name "fst (load_text T e doc name)"
        "snd (load_text T e doc name)" "path_name E p" "fst (load_text T e doc (path_name E p))"
        "snd (load_text T e doc (path_name E p))" x]
    by (simp add: f t)
qed

section \<open>Retrieval on a loaded knowledge base\<close>

lemma retrieve_loop_eq:
  "retrieve_loop cs ps acc =
   acc @ map (\<lambda>(d, i). \<lparr>chunk = cs ! nat i, score = d\<rparr>)
           (filter (\<lambda>(d, i). 0 \<le> i \<and> i < int (length cs)) ps)"
  by (induction cs ps acc rule: retrieve_loop.induct) auto

lemma ranked_props:
  fixes D :: "real list"
  defines "R \<equiv> sort (zip D [0..<length D])"
  shows "sorted R" and "distinct (map snd R)" and "length R = length D"
    and "\<forall>h \<in> set R. snd h < length D \<and> fst h = D ! snd h"
proof -
  show "sorted R" by (simp add: R_def)
  have "set R = set (zip D [0..<length D])" by (simp add: R_def)
  then show m: "\<forall>h \<in> set R. snd h < length D \<and> fst h = D ! snd h"
    by (auto simp: set_zip)
  have "inj_on snd (set R)"
  proof (rule inj_onI)
    fix a b assume "a \<in> set R" "b \<in> set R" "snd a = snd b"
    with m have "fst a = fst b" by simp
    with \<open>snd a = snd b\<close> show "a = b" by (simp add: prod_eq_iff)
  qed
  moreover have "distinct R" by (simp add: R_def distinct_zipI2)
  ultimately show "distinct (map snd R)" by (simp add: distinct_map)
  show "length R = length D" by (simp add: R_def)
qed

lemma hits_props:
  fixes D :: "real list" and c k :: nat
  defines "H \<equiv> filter (\<lambda>h. snd h < c) (take k (sort (zip D [0..<length D])))"
  shows "sorted_wrt (\<lambda>a b. fst a < fst b \<or> (fst a = fst b \<and> snd a < snd b)) H"
    and "distinct (map snd H)"
    and "\<forall>h \<in> set H. snd h < c \<and> snd h < length D \<and> fst h = D ! snd h"
    and "length D \<le> c \<Longrightarrow> length H = min k (length D)"
proof -
  let ?R = "sort (zip D [0..<length D])"
  note R = ranked_props [of D]
  have "sorted (take k ?R)" using R(1) by (simp add: sorted_wrt_take)
  then have s: "sorted H" unfolding H_def by (rule sorted_wrt_filter)
  have "distinct (map snd (take k ?R))" using R(2) by (simp flip: take_map)
  then show d: "distinct (map snd H)" unfolding H_def by (simp add: distinct_map_filter)
  then have "distinct H" by (simp add: distinct_map)
  with s have "sorted_wrt (<) H" by (simp add: strict_sorted_iff)
  then show "sorted_wrt (\<lambda>a b. fst a < fst b \<or> (fst a = fst b \<and> snd a < snd b)) H"
    by (rule sorted_wrt_mono_rel [rotated]) (auto simp: less_prod_def)
  show m: "\<forall>h \<in> set H. snd h < c \<and> snd h < length D \<and> fst h = D ! snd h"
  proof
    fix h assume "h \<in> set H"
    then have "snd h < c" and "h \<in> set ?R"
      unfolding H_def by (auto dest: in_set_takeD)
    with R(4) show "snd h < c \<and> snd h < length D \<and> fst h = D ! snd h" by blast
  qed
  show "length H = min k (length D)" if "length D \<le> c"
  proof -
    have "\<forall>h \<in> set (take k ?R). snd h < c"
    proof
      fix h assume "h \<in> set (take k ?R)"
      then have "h \<in> set ?R" by (rule in_set_takeD)
      with R(4) have "snd h < length D" by blast
      with that show "snd h < c" by simp
    qed
    then have "filter (\<lambda>h. snd h < c) (take k ?R) = take k ?R"
      by (rule filter_True)
    then show ?thesis using R(3) by (simp add: H_def min.commute)
  qed
qed

lemma distinct_below_length:
  fixes f :: "'a \<Rightarrow> nat"
  assumes "distinct (map f xs)" and "\<forall>x \<in> set xs. f x < c"
  shows "length xs \<le> c"
proof -
  have "f ` set xs \<subseteq> {..<c}" using assms(2) by auto
  then have "card (f ` set xs) \<le> card {..<c}" by (intro card_mono) auto
  moreover have "card (f ` set xs) = length xs"
    using distinct_card [OF assms(1)] by simp
  ultimately show ?thesis by simp
qed

lemma hits_length_le:
  fixes D :: "real list"
  shows "length (filter (\<lambda>h. snd h < c) (take k (sort (zip D [0..<length D])))) \<le> c"
proof (rule distinct_below_length [where f = snd])
  show "distinct (map snd (filter (\<lambda>h. snd h < c) (take k (sort (zip D [0..<length D])))))"
    by (rule hits_props(2))
  show "\<forall>x \<in> set (filter (\<lambda>h. snd h < c) (take k (sort (zip D [0..<length D])))). snd x < c"
    by simp
qed

lemma valid_hits:
  "map (\<lambda>(d, i). \<lparr>chunk = cs ! nat i, score = d\<rparr>)
     (filter (\<lambda>(d, i). 0 \<le> i \<and> i < int (length cs))
       (map (\<lambda>h. (fst h, int (snd h))) H)) =
   map (\<lambda>h. \<lparr>chunk = cs ! snd h, score = fst h\<rparr>) (filter (\<lambda>h. snd h < length cs) H)"
  by (induction H) auto

lemma retrieve_hits:
  assumes "index e = Some ix" and "chunks e \<noteq> []"
    and "transform T (vectorizer e) query = Inr qv"
  shows "retrieve T e query top_k =
         Inr (map (\<lambda>h. \<lparr>chunk = chunks e ! snd h, score = fst h\<rparr>)
               (filter (\<lambda>h. snd h < length (chunks e))
                 (take (nat top_k)
                   (sort (zip (map (l2_sqr qv) (ix_rows ix)) [0..<length (ix_rows ix)])))))"
proof -
  define H where "H = take (nat top_k)
      (sort (zip (map (l2_sqr qv) (ix_rows ix)) [0..<length (ix_rows ix)]))"
  define pad where "pad = nat top_k - length H"
  have s: "index_search ix qv top_k =
      (map fst H @ replicate pad pad_distance, map (\<lambda>h. int (snd h)) H @ replicate pad (- 1))"
    by (simp add: index_search_def Let_def H_def pad_def)
  have z: "zip (map fst H @ replicate pad pad_distance)
               (map (\<lambda>h. int (snd h)) H @ replicate pad (- 1)) =
           map (\<lambda>h. (fst h, int (snd h))) H @ replicate pad (pad_distance, - 1)"
    by (simp add: zip_map_map zip_same_conv_map)
  show ?thesis
    using assms
    by (simp add: retrieve_def s z retrieve_loop_eq valid_hits flip: H_def)
qed

lemma loaded_ex:
  assumes "sklearn_contract T" and "loaded E T e"
  shows "\<exists>X. index e = Some \<lparr>ix_dim = nd_cols X, ix_rows = nd_rows X\<rparr> \<and>
             embeddings e = Some X \<and> length (nd_rows X) = length (chunks e) \<and>
             chunks e \<noteq> [] \<and> (\<forall>q. \<exists>qv. transform T (vectorizer e) q = Inr qv)"
  using assms(2)
proof cases
  case (by_text e0 doc name n)
  then have "load_text T e0 doc name = (e, Inr n)"
    by (auto dest: ingest_text_cases)
  from load_text_success [OF this assms(1)] show ?thesis by blast
next
  case (by_file e0 p n)
  then obtain doc where "load_text T e0 doc (path_name E p) = (e, Inr n)"
    by (auto dest: ingest_file_cases)
  from load_text_success [OF this assms(1)] show ?thesis by blast
qed


text \<open>
  Claim C4, with the index of section 4.4 of the specification. On a loaded knowledge
  base, \<open>retrieve\<close> returns the chunks of a list of hits (distance, chunk number) in the
  order of the list: each distance is the squared Euclidean distance between the query
  vector and the chunk's row of the embedding matrix, unchanged; the distances ascend,
  and of two hits at the same distance the lower chunk number comes first; there are
  \<open>min top_k C\<close> hits for \<open>C\<close> chunks.
\<close>

theorem retrieve_ordered:
  assumes "sklearn_contract T" and "loaded E T e"
  shows "\<exists>qv X hits.
           transform T (vectorizer e) query = Inr qv \<and> embeddings e = Some X \<and>
           retrieve T e query top_k =
             Inr (map (\<lambda>h. \<lparr>chunk = chunks e ! snd h, score = fst h\<rparr>) hits) \<and>
           (\<forall>h \<in> set hits. snd h < length (chunks e) \<and>
                            fst h = l2_sqr qv (nd_rows X ! snd h)) \<and>
           sorted_wrt (\<lambda>a b. fst a < fst b \<or> (fst a = fst b \<and> snd a < snd b)) hits \<and>
           length hits = min (nat top_k) (length (chunks e))"
proof -
  from loaded_ex [OF assms] obtain X where
    X: "index e = Some \<lparr>ix_dim = nd_cols X, ix_rows = nd_rows X\<rparr> \<and>
        embeddings e = Some X \<and> length (nd_rows X) = length (chunks e) \<and>
        chunks e \<noteq> [] \<and> (\<forall>q. \<exists>qv. transform T (vectorizer e) q = Inr qv)" ..
  from X have ix: "index e = Some \<lparr>ix_dim = nd_cols X, ix_rows = nd_rows X\<rparr>" by simp
  from X have em: "embeddings e = Some X" by simp
  from X have len: "length (nd_rows X) = length (chunks e)" by simp
  from X have ne: "chunks e \<noteq> []" by simp
  from X have "\<exists>qv. transform T (vectorizer e) query = Inr qv" by simp
  then obtain qv where qv: "transform T (vectorizer e) query = Inr qv" ..
  let ?D = "map (l2_sqr qv) (nd_rows X)"
  let ?H = "filter (\<lambda>h. snd h < length (chunks e)) (take (nat top_k) (sort (zip ?D [0..<length ?D])))"
  have r: "retrieve T e query top_k =
           Inr (map (\<lambda>h. \<lparr>chunk = chunks e ! snd h, score = fst h\<rparr>) ?H)"
    using retrieve_hits [OF ix ne qv, of top_k] by simp
  note H = hits_props [where D = ?D and c = "length (chunks e)" and k = "nat top_k"]
  have m: "\<forall>h \<in> set ?H. snd h < length (chunks e) \<and> fst h = l2_sqr qv (nd_rows X ! snd h)"
  proof
    fix h assume h: "h \<in> set ?H"
    with H(3) have "snd h < length (chunks e)" "snd h < length ?D" "fst h = ?D ! snd h"
      by blast+
    then show "snd h < length (chunks e) \<and> fst h = l2_sqr qv (nd_rows X ! snd h)"
      by simp
  qed
  have l: "length ?H = min (nat top_k) (length (chunks e))"
    using H(4) len by simp
  show ?thesis
    apply (rule exI [of _ qv], rule exI [of _ X], rule exI [of _ ?H])
    apply (intro conjI)
         apply (rule qv, rule em, rule r, rule m, rule H(1), rule l)
    done
qed

text \<open>
  Claim C5, with the index of section 4.4 of the specification. On a loaded knowledge
  base of \<open>C\<close> chunks, \<open>retrieve\<close> with \<open>top_k > C\<close> returns (it does not raise) at most
  \<open>C\<close> results: the sentinel indices that pad the search are skipped.
\<close>

theorem retrieve_beyond_chunk_count:
  assumes "sklearn_contract T" and "loaded E T e" and "int (length (chunks e)) < top_k"
  shows "\<exists>results. retrieve T e query top_k = Inr results \<and>
                    length results \<le> length (chunks e)"
proof -
  from loaded_ex [OF assms(1,2)] obtain X where
    X: "index e = Some \<lparr>ix_dim = nd_cols X, ix_rows = nd_rows X\<rparr> \<and>
        embeddings e = Some X \<and> length (nd_rows X) = length (chunks e) \<and>
        chunks e \<noteq> [] \<and> (\<forall>q. \<exists>qv. transform T (vectorizer e) q = Inr qv)" ..
  from X have ix: "index e = Some \<lparr>ix_dim = nd_cols X, ix_rows = nd_rows X\<rparr>" by simp
  from X have ne: "chunks e \<noteq> []" by simp
  from X have "\<exists>qv. transform T (vectorizer e) query = Inr qv" by simp
  then obtain qv where qv: "transform T (vectorizer e) query = Inr qv" ..
  show ?thesis
    using retrieve_hits [OF ix ne qv, of top_k]
      hits_length_le [where D = "map (l2_sqr qv) (nd_rows X)" and c = "length (chunks e)"
        and k = "nat top_k"]
    by simp
qed

section \<open>The engine at work\<close>

lemma toy_contract: "sklearn_contract toy_tfidf"
  by (auto simp: sklearn_contract_def toy_tfidf_def Let_def split: if_splits)

lemmas py_eval = py_def py_split_def is_space_def py_strip_def py_slice_def py_range.simps
  chunk_text_def Let_def

lemmas toy_eval = toy_tfidf_def toy_engine_def toy_document_def toy_vocabulary_def toy_row_def
  toy_stop_words_def

lemma toy_chunks:
  "chunk_text 2 0 toy_document = [py ''apple banana'', py ''apple orange'', py ''car truck'']"
  by (simp add: py_eval toy_document_def)

lemma toy_document_not_blank: "py_strip toy_document \<noteq> []"
  by (simp add: py_eval toy_document_def)

lemma toy_fit:
  "fit_transform toy_tfidf v [py ''apple banana'', py ''apple orange'', py ''car truck''] =
     (Some [py ''banana'', py ''apple'', py ''orange'', py ''car'', py ''truck''],
      Inr \<lparr>nd_cols = 5, nd_rows = [[1, 1, 0, 0, 0], [0, 1, 1, 0, 0], [0, 0, 0, 1, 1]]\<rparr>)"
  by (simp add: toy_eval py_eval)


lemma toy_document_not_empty: "toy_document \<noteq> []"
  by (simp add: toy_document_def py_def)

lemma toy_ingest:
  "ingest_text toy_tfidf (toy_engine None) toy_document (py ''input_text'') =
     (\<lparr>model_name = py ''llama-3.1-8b-instant'', chunk_size_words = 2,
       chunk_overlap_words = 0, groq_api_key = py ''gsk'',
       vectorizer = Some [py ''banana'', py ''apple'', py ''orange'', py ''car'', py ''truck''],
       index = Some \<lparr>ix_dim = 5,
                      ix_rows = [[1, 1, 0, 0, 0], [0, 1, 1, 0, 0], [0, 0, 0, 1, 1]]\<rparr>,
       chunks = [py ''apple banana'', py ''apple orange'', py ''car truck''],
       embeddings = Some \<lparr>nd_cols = 5,
                           nd_rows = [[1, 1, 0, 0, 0], [0, 1, 1, 0, 0], [0, 0, 0, 1, 1]]\<rparr>,
       source_name = Some (py ''input_text'')\<rparr>, Inr 3)"
  by (simp add: ingest_text_def load_text_def build_index_def toy_document_not_blank
      toy_document_not_empty toy_chunks toy_fit toy_engine_def nd_size_def shape0_def shape1_def
      IndexFlatL2_def index_add_def Let_def)

lemma toy_kb_eq:
  "toy_kb =
     \<lparr>model_name = py ''llama-3.1-8b-instant'', chunk_size_words = 2,
      chunk_overlap_words = 0, groq_api_key = py ''gsk'',
      vectorizer = Some [py ''banana'', py ''apple'', py ''orange'', py ''car'', py ''truck''],
      index = Some \<lparr>ix_dim = 5,
                     ix_rows = [[1, 1, 0, 0, 0], [0, 1, 1, 0, 0], [0, 0, 0, 1, 1]]\<rparr>,
      chunks = [py ''apple banana'', py ''apple orange'', py ''car truck''],
      embeddings = Some \<lparr>nd_cols = 5,
                          nd_rows = [[1, 1, 0, 0, 0], [0, 1, 1, 0, 0], [0, 0, 0, 1, 1]]\<rparr>,
      source_name = Some (py ''input_text'')\<rparr>"
  by (simp add: toy_kb_def toy_ingest)

lemma toy_kb_loaded: "loaded toy_env toy_tfidf toy_kb"
  by (rule loaded.by_text [of toy_tfidf "toy_engine None" toy_document "py ''input_text''" _ 3])
    (simp add: toy_ingest toy_kb_eq)

lemma the_chunks: "chunk_text 2 0 (py ''the'') = [py ''the'']"
  by (simp add: py_eval)

lemma the_fit: "fit_transform toy_tfidf v [py ''the''] = (v, Inl (ValueError ''empty vocabulary''))"
  by (simp add: toy_eval py_eval)

lemma stale_ingest:
  "ingest_text toy_tfidf toy_kb (py ''the'') (py ''input_text'') =
     (toy_kb\<lparr>chunks := [py ''the'']\<rparr>, Inl (ValueError ''empty vocabulary''))"
proof -
  have "py_strip (py ''the'') \<noteq> []" "py ''the'' \<noteq> []" by (simp_all add: py_eval)
  then show ?thesis
    by (simp add: ingest_text_def load_text_def build_index_def the_chunks the_fit toy_kb_eq
        Let_def)
qed

lemma toy_query:
  "transform toy_tfidf (vectorizer toy_kb) (py ''apple'') = Inr [0, 1, 0, 0, 0]"
  by (simp add: toy_kb_eq toy_eval py_eval)




lemma toy_search:
  "index_search \<lparr>ix_dim = 5, ix_rows = [[1, 1, 0, 0, 0], [0, 1, 1, 0, 0], [0, 0, 0, 1, 1]]\<rparr>
     [0, 1, 0, 0, 0] 5 =
   ([1, 1, 3, pad_distance, pad_distance], [0, 1, 2, - 1, - 1])"
proof -
  have rep: "replicate 2 x = [x, x]" for x :: 'a by (simp add: numeral_2_eq_2)
  show ?thesis
    by (simp add: index_search_def Let_def l2_sqr_def rep)
qed

lemma toy_retrieve:
  "retrieve toy_tfidf toy_kb (py ''apple'') 5 =
     Inr [\<lparr>chunk = py ''apple banana'', score = 1\<rparr>, \<lparr>chunk = py ''apple orange'', score = 1\<rparr>,
          \<lparr>chunk = py ''car truck'', score = 3\<rparr>]"
proof -
  have "retrieve toy_tfidf toy_kb (py ''apple'') 5 =
        Inr (retrieve_loop (chunks toy_kb)
               (zip [1, 1, 3, pad_distance, pad_distance] [0, 1, 2, - 1, - 1]) [])"
    using toy_query by (simp add: retrieve_def toy_kb_eq toy_search)
  also have "\<dots> = Inr [\<lparr>chunk = py ''apple banana'', score = 1\<rparr>,
      \<lparr>chunk = py ''apple orange'', score = 1\<rparr>, \<lparr>chunk = py ''car truck'', score = 3\<rparr>]"
    by (simp add: toy_kb_eq)
  finally show ?thesis .
qed

text \<open>
  The engine after the ingest of the six words of the toy document, two words per chunk:
  three chunks and three rows. A second ingest, of a stop word, raises and leaves this
  index.
\<close>

theorem ingest_consistency_witness:
  "sklearn_contract toy_tfidf \<and>
   ingest_text toy_tfidf (toy_engine None) toy_document (py ''input_text'') = (toy_kb, Inr 3) \<and>
   (\<exists>ix. index toy_kb = Some ix \<and> ntotal ix = length (chunks toy_kb)) \<and>
   3 = length (chunks toy_kb) \<and> kb_consistent toy_kb \<and>
   ingest_text toy_tfidf toy_kb (py ''the'') (py ''input_text'') =
     (stale_kb, Inl (ValueError ''empty vocabulary'')) \<and>
   index stale_kb = index toy_kb \<and> embeddings stale_kb = embeddings toy_kb"
proof -
  have a: "ingest_text toy_tfidf (toy_engine None) toy_document (py ''input_text'') = (toy_kb, Inr 3)"
    by (simp add: toy_ingest toy_kb_eq)
  have b: "ingest_text toy_tfidf toy_kb (py ''the'') (py ''input_text'') =
      (stale_kb, Inl (ValueError ''empty vocabulary''))"
    by (simp add: stale_kb_def stale_ingest)
  show ?thesis
    using toy_contract a b
      ingest_consistency [OF toy_contract, of "toy_engine None" toy_document "py ''input_text''"
        toy_kb "Inr 3" toy_env "py ''notes.txt''"]
      ingest_consistency [OF toy_contract, of toy_kb "py ''the''" "py ''input_text''"
        stale_kb "Inl (ValueError ''empty vocabulary'')" toy_env "py ''notes.txt''"]
    by auto
qed

text \<open>
  After a document of three chunks, the ingest of the text \<^verbatim>\<open>the\<close> raises while the
  index is built (the vocabulary is empty): the engine is left with the one new chunk and
  the index of three rows.
\<close>

theorem stale_index_counterexample:
  "kb_consistent toy_kb \<and>
   ingest_text toy_tfidf toy_kb (py ''the'') (py ''input_text'') =
     (stale_kb, Inl (ValueError ''empty vocabulary'')) \<and>
   map_option ntotal (index stale_kb) = Some 3 \<and> length (chunks stale_kb) = 1 \<and>
   \<not> kb_consistent stale_kb"
  by (simp add: stale_kb_def stale_ingest kb_consistent_def) (simp add: toy_kb_eq ntotal_def)

text \<open>
  The query \<^verbatim>\<open>apple\<close> on the three chunks: the two chunks with the word at distance 1,
  in chunk order, then the third at distance 3.
\<close>

theorem retrieve_ordered_witness:
  "sklearn_contract toy_tfidf \<and> loaded toy_env toy_tfidf toy_kb \<and>
   retrieve toy_tfidf toy_kb (py ''apple'') 5 =
     Inr [\<lparr>chunk = py ''apple banana'', score = 1\<rparr>, \<lparr>chunk = py ''apple orange'', score = 1\<rparr>,
          \<lparr>chunk = py ''car truck'', score = 3\<rparr>] \<and>
   (\<exists>qv X hits.
      transform toy_tfidf (vectorizer toy_kb) (py ''apple'') = Inr qv \<and>
      embeddings toy_kb = Some X \<and>
      retrieve toy_tfidf toy_kb (py ''apple'') 5 =
        Inr (map (\<lambda>h. \<lparr>chunk = chunks toy_kb ! snd h, score = fst h\<rparr>) hits) \<and>
      (\<forall>h \<in> set hits. snd h < length (chunks toy_kb) \<and>
                       fst h = l2_sqr qv (nd_rows X ! snd h)) \<and>
      sorted_wrt (\<lambda>a b. fst a < fst b \<or> (fst a = fst b \<and> snd a < snd b)) hits \<and>
      length hits = min (nat 5) (length (chunks toy_kb)))"
  using toy_contract toy_kb_loaded toy_retrieve
    retrieve_ordered [OF toy_contract toy_kb_loaded, of "py ''apple''" 5]
  by blast

text \<open>
  Five results asked of three chunks: the search returns the three chunk numbers and two
  sentinels, \<open>retrieve\<close> returns three results.
\<close>

theorem retrieve_beyond_chunk_count_witness:
  "sklearn_contract toy_tfidf \<and> loaded toy_env toy_tfidf toy_kb \<and>
   int (length (chunks toy_kb)) < 5 \<and>
   snd (index_search (the (index toy_kb)) [0, 1, 0, 0, 0] 5) = [0, 1, 2, - 1, - 1] \<and>
   (\<exists>results. retrieve toy_tfidf toy_kb (py ''apple'') 5 = Inr results \<and>
               length results \<le> length (chunks toy_kb))"
proof -
  have l: "int (length (chunks toy_kb)) < 5" by (simp add: toy_kb_eq)
  have s: "snd (index_search (the (index toy_kb)) [0, 1, 0, 0, 0] 5) = [0, 1, 2, - 1, - 1]"
    by (simp add: toy_kb_eq toy_search)
  show ?thesis
    using toy_contract toy_kb_loaded l s
      retrieve_beyond_chunk_count [OF toy_contract toy_kb_loaded l, of "py ''apple''"]
    by blast
qed

lemma toy_new_engine:
  "new_engine toy_tfidf (Some (py ''gsk'')) None (py ''llama-3.1-8b-instant'') 2 0 =
     Inr (toy_engine None)"
  by (simp add: new_engine_def toy_engine_def toy_tfidf_def py_def)

lemma the_ingest_fresh:
  "ingest_text toy_tfidf (toy_engine None) (py ''the'') (py ''input_text'') =
     ((toy_engine None)\<lparr>chunks := [py ''the''], source_name := Some (py ''input_text'')\<rparr>,
      Inl (ValueError ''empty vocabulary''))"
proof -
  have "py_strip (py ''the'') \<noteq> []" "py ''the'' \<noteq> []" by (simp_all add: py_eval)
  then show ?thesis
    by (simp add: ingest_text_def load_text_def build_index_def the_chunks the_fit toy_engine_def
        Let_def)
qed

text \<open>
  A new engine, and the engine after an ingest that raised: both have no index, and
  \<open>retrieve\<close> raises.
\<close>

theorem retrieve_without_knowledge_base_witness:
  "never_loaded toy_env toy_tfidf
     ((toy_engine None)\<lparr>chunks := [py ''the''], source_name := Some (py ''input_text'')\<rparr>) \<and>
   retrieve toy_tfidf
     ((toy_engine None)\<lparr>chunks := [py ''the''], source_name := Some (py ''input_text'')\<rparr>)
     (py ''apple'') 3 = Inl NoKnowledgeBase \<and>
   retrieve toy_tfidf (toy_engine None) (py ''apple'') 3 = Inl NoKnowledgeBase"
proof -
  let ?e = "(toy_engine None)\<lparr>chunks := [py ''the''], source_name := Some (py ''input_text'')\<rparr>"
  have f: "never_loaded toy_env toy_tfidf (toy_engine None)"
    by (rule never_loaded.fresh [OF toy_new_engine])
  have n: "never_loaded toy_env toy_tfidf ?e"
    by (rule never_loaded.text_failed [OF f the_ingest_fresh])
  show ?thesis
    using n retrieve_without_knowledge_base [of toy_env toy_tfidf ?e "py ''apple''" 3]
      retrieve_without_knowledge_base [of toy_env toy_tfidf "toy_engine None" "py ''apple''" 3] f
    by simp
qed

lemma hollow_retrieve: "retrieve toy_tfidf hollow_kb (py ''apple'') 2 = Inr []"
proof -
  have rep: "replicate 2 x = [x, x]" for x :: 'a by (simp add: numeral_2_eq_2)
  have "transform toy_tfidf (vectorizer hollow_kb) (py ''apple'') = Inr [0, 1, 0, 0, 0]"
    using toy_query by (simp add: hollow_kb_def)
  then show ?thesis
    by (simp add: retrieve_def hollow_kb_def IndexFlatL2_def index_search_def Let_def rep)
      (simp add: toy_kb_eq)
qed

text \<open>
  An engine whose index has no row: the search returns sentinels only, the retriever
  returns nothing, and \<open>answer\<close> returns the fixed sentence without a request.
\<close>

theorem answer_without_context_witness:
  "retrieve toy_tfidf hollow_kb (py ''apple'') 2 = Inr [] \<and>
   answer toy_generator toy_tfidf hollow_kb (py ''apple'') 2 0 =
     (Inr (py ''I could not retrieve relevant context.'', []), [])"
  using hollow_retrieve
    answer_without_context [OF hollow_retrieve, of toy_generator 0]
  by (simp add: no_context_answer_def)



lemma toy_load_record:
  "load_text toy_tfidf (toy_engine None) toy_document name =
     (\<lparr>model_name = py ''llama-3.1-8b-instant'', chunk_size_words = 2,
       chunk_overlap_words = 0, groq_api_key = py ''gsk'',
       vectorizer = Some [py ''banana'', py ''apple'', py ''orange'', py ''car'', py ''truck''],
       index = Some \<lparr>ix_dim = 5,
                      ix_rows = [[1, 1, 0, 0, 0], [0, 1, 1, 0, 0], [0, 0, 0, 1, 1]]\<rparr>,
       chunks = [py ''apple banana'', py ''apple orange'', py ''car truck''],
       embeddings = Some \<lparr>nd_cols = 5,
                           nd_rows = [[1, 1, 0, 0, 0], [0, 1, 1, 0, 0], [0, 0, 0, 1, 1]]\<rparr>,
       source_name = Some name\<rparr>, Inr 3)"
  by (simp add: load_text_def build_index_def toy_chunks toy_fit toy_engine_def nd_size_def
      shape0_def shape1_def IndexFlatL2_def index_add_def Let_def)

lemma toy_load:
  "load_text toy_tfidf (toy_engine None) toy_document name =
     (toy_kb\<lparr>source_name := Some name\<rparr>, Inr 3)"
  unfolding toy_load_record toy_kb_eq by simp

lemma toy_paths:
  "path_exists toy_env (py ''NOTES.TXT'')" "path_exists toy_env (py ''notes.txt'')"
  "path_exists toy_env (py ''blank.txt'')" "path_exists toy_env (py ''report.docx'')"
  "path_suffix toy_env (py ''NOTES.TXT'') = py ''.TXT''"
  "path_suffix toy_env (py ''notes.txt'') = py ''.txt''"
  "path_suffix toy_env (py ''blank.txt'') = py ''.txt''"
  "path_suffix toy_env (py ''report.docx'') = py ''.docx''"
  "path_name toy_env p = p"
  "read_text toy_env (py ''NOTES.TXT'') = Inr toy_document"
  "read_text toy_env (py ''notes.txt'') = Inr toy_document"
  "read_text toy_env (py ''blank.txt'') = Inr [32, 10, 9]"
  by (simp_all add: toy_env_def py_def)

lemma toy_suffixes:
  "py_lower (py ''.TXT'') = py ''.txt''" "py_lower (py ''.txt'') = py ''.txt''"
  "py_lower (py ''.docx'') = py ''.docx''" "py ''.docx'' \<noteq> py ''.txt''"
  "py ''.docx'' \<noteq> py ''.pdf''" "py ''.TXT'' \<noteq> py ''.txt''" "py ''.TXT'' \<noteq> py ''.pdf''"
  by (simp_all add: py_lower_def py_def)

text \<open>
  The suffix \<^verbatim>\<open>.TXT\<close> is neither \<^verbatim>\<open>.txt\<close> nor \<^verbatim>\<open>.pdf\<close>, and the file is ingested
  as a text file.
\<close>

theorem upper_case_suffix_counterexample:
  "path_exists toy_env (py ''NOTES.TXT'') \<and>
   path_suffix toy_env (py ''NOTES.TXT'') = py ''.TXT'' \<and>
   py ''.TXT'' \<noteq> py ''.txt'' \<and> py ''.TXT'' \<noteq> py ''.pdf'' \<and>
   ingest_file toy_env toy_tfidf (toy_engine None) (py ''NOTES.TXT'') =
     (toy_kb\<lparr>source_name := Some (py ''NOTES.TXT'')\<rparr>, Inr 3) \<and>
   snd (ingest_file toy_env toy_tfidf (toy_engine None) (py ''NOTES.TXT'')) \<noteq>
     Inl UnsupportedFormat"
  by (simp add: ingest_file_def toy_paths toy_suffixes toy_load toy_document_not_blank
      toy_document_not_empty)

text \<open>A \<^verbatim>\<open>.docx\<close> file, and a \<^verbatim>\<open>.txt\<close> file of a space, a newline and a tab.\<close>

theorem ingest_file_rejections_witness:
  "path_exists toy_env (py ''report.docx'') \<and>
   path_suffix toy_env (py ''report.docx'') = py ''.docx'' \<and>
   ingest_file toy_env toy_tfidf toy_kb (py ''report.docx'') = (toy_kb, Inl UnsupportedFormat) \<and>
   path_exists toy_env (py ''blank.txt'') \<and>
   path_suffix toy_env (py ''blank.txt'') = py ''.txt'' \<and>
   read_text toy_env (py ''blank.txt'') = Inr [32, 10, 9] \<and> py_strip [32, 10, 9] = [] \<and>
   ingest_file toy_env toy_tfidf toy_kb (py ''blank.txt'') = (toy_kb, Inl EmptyDocument)"
proof -
  have b: "py_strip [32, 10, 9] = []" by (simp add: py_strip_def is_space_def)
  show ?thesis
    using b toy_paths toy_suffixes
      ingest_file_rejections [OF toy_paths(4), of toy_tfidf toy_kb "[]"]
      ingest_file_rejections [OF toy_paths(3), of toy_tfidf toy_kb "[32, 10, 9]"]
    by simp
qed

text \<open>The toy document, ingested as the file \<^verbatim>\<open>notes.txt\<close> and as a text.\<close>

theorem ingest_text_file_agree_witness:
  "path_exists toy_env (py ''notes.txt'') \<and>
   py_lower (path_suffix toy_env (py ''notes.txt'')) = py ''.txt'' \<and>
   read_text toy_env (py ''notes.txt'') = Inr toy_document \<and> py_strip toy_document \<noteq> [] \<and>
   ingest_file toy_env toy_tfidf (toy_engine None) (py ''notes.txt'') =
     (toy_kb\<lparr>source_name := Some (py ''notes.txt'')\<rparr>, Inr 3) \<and>
   ingest_text toy_tfidf (toy_engine None) toy_document (py ''input_text'') = (toy_kb, Inr 3) \<and>
   ingest_file toy_env toy_tfidf (toy_engine None) (py ''notes.txt'') =
     ingest_text toy_tfidf (toy_engine None) toy_document (path_name toy_env (py ''notes.txt'')) \<and>
   snd (ingest_text toy_tfidf (toy_engine None) toy_document (py ''input_text'')) =
     snd (ingest_file toy_env toy_tfidf (toy_engine None) (py ''notes.txt'')) \<and>
   (fst (ingest_text toy_tfidf (toy_engine None) toy_document (py ''input_text'')))
      \<lparr>source_name := None\<rparr> =
   (fst (ingest_file toy_env toy_tfidf (toy_engine None) (py ''notes.txt'')))
      \<lparr>source_name := None\<rparr>"
proof -
  have s: "py_lower (path_suffix toy_env (py ''notes.txt'')) = py ''.txt''"
    by (simp add: toy_paths toy_suffixes)
  have t: "ingest_text toy_tfidf (toy_engine None) toy_document (py ''input_text'') = (toy_kb, Inr 3)"
    by (simp add: toy_ingest toy_kb_eq)
  have f: "ingest_file toy_env toy_tfidf (toy_engine None) (py ''notes.txt'') =
      (toy_kb\<lparr>source_name := Some (py ''notes.txt'')\<rparr>, Inr 3)"
    by (simp add: ingest_file_def toy_paths toy_suffixes toy_load toy_document_not_blank
        toy_document_not_empty)
  note agree = ingest_text_file_agree [OF toy_paths(2) s toy_paths(11) toy_document_not_blank,
      of toy_tfidf "toy_engine None" "py ''input_text''" None]
  show ?thesis
    by (intro conjI toy_paths(2) s toy_paths(11) toy_document_not_blank f t
        agree [THEN conjunct1] agree [THEN conjunct2, THEN conjunct1]
        agree [THEN conjunct2, THEN conjunct2])
qed

end
